theory Spec2Isabelle
  imports Main "HOL-Library.Sublist"
begin

section \<open>The FAQ chat widget of script_bot.js\<close>

text \<open>
  The script wires a text field and a send button to one asynchronous function,
  \<^verbatim>\<open>getBotResponse\<close>, which extracts keywords from the user's text, asks Firestore for
  the records sharing a keyword with it, scores them and renders one answer.

  A JavaScript string is the list of its UTF-16 code units, each a natural number (below
  65536); two strings are equal when their code units are. \<open>str\<close> writes a literal of the
  source. The scroll position of the transcript and the keyboard focus are presentation
  and are not part of the state.
\<close>

subsection \<open>Strings: \<^verbatim>\<open>\w\<close>, \<^verbatim>\<open>toLowerCase\<close>, \<^verbatim>\<open>trim\<close>\<close>

type_synonym utf16 = "nat list"

definition str :: "string \<Rightarrow> utf16" where
  "str s = map of_char s"

text \<open>\<^verbatim>\<open>\w\<close> without the unicode flag: digits, ASCII letters and the underscore.\<close>

definition is_word_char :: "nat \<Rightarrow> bool" where
  "is_word_char n =
     ((48 \<le> n \<and> n \<le> 57) \<or> (65 \<le> n \<and> n \<le> 90) \<or> n = 95 \<or> (97 \<le> n \<and> n \<le> 122))"

text \<open>
  \<^verbatim>\<open>String.prototype.toLowerCase\<close> replaces every character by its lower case of the
  Unicode case tables, whatever the locale. Within ASCII that moves \<^verbatim>\<open>A\<close> to \<^verbatim>\<open>Z\<close> up by 32.
  Exactly two characters outside ASCII have a lower case with an ASCII letter in it: the
  Kelvin sign U+212A (8490) becomes \<^verbatim>\<open>k\<close> (107), and the capital I with dot above U+0130
  (304) becomes \<^verbatim>\<open>i\<close> (105) followed by the combining dot U+0307 (775). The lower case of
  every other code unit is read from a table, a parameter here: it is given the code units
  before the position, the code unit itself and those behind it, since the table looks at
  the context for the final sigma and at the neighbour for a surrogate pair.
\<close>

type_synonym case_table = "utf16 \<Rightarrow> nat \<Rightarrow> utf16 \<Rightarrow> utf16"

definition lower_ascii :: "nat \<Rightarrow> nat" where
  "lower_ascii u = (if 65 \<le> u \<and> u \<le> 90 then u + 32 else u)"

definition lower_unit :: "case_table \<Rightarrow> utf16 \<Rightarrow> nat \<Rightarrow> utf16 \<Rightarrow> utf16" where
  "lower_unit lc pre u post =
     (if u < 128 then [lower_ascii u]
      else if u = 8490 then [107]
      else if u = 304 then [105, 775]
      else lc pre u post)"

fun lower_from :: "case_table \<Rightarrow> utf16 \<Rightarrow> utf16 \<Rightarrow> utf16" where
  "lower_from lc pre [] = []"
| "lower_from lc pre (u # post) = lower_unit lc pre u post @ lower_from lc (pre @ [u]) post"

definition toLowerCase :: "case_table \<Rightarrow> utf16 \<Rightarrow> utf16" where
  "toLowerCase lc s = lower_from lc [] s"


text \<open>
  The table of the Latin-1 supplement: the capitals 192 to 222 except the multiplication
  sign 215 move up by 32. Beyond Latin-1 it leaves a code unit as it is; it serves the
  examples, whose texts hold no cased character beyond Latin-1 but the two above.
\<close>

definition latin1_table :: case_table where
  "latin1_table pre u post = [if 192 \<le> u \<and> u \<le> 222 \<and> u \<noteq> 215 then u + 32 else u]"

text \<open>The white space and line terminators that \<^verbatim>\<open>trim\<close> strips from both ends.\<close>

definition is_space_char :: "nat \<Rightarrow> bool" where
  "is_space_char u =
     (u \<in> {9, 10, 11, 12, 13, 32, 160, 5760, 8232, 8233, 8239, 8287, 12288, 65279}
      \<or> (8192 \<le> u \<and> u \<le> 8202))"

definition trim :: "utf16 \<Rightarrow> utf16" where
  "trim s = rev (dropWhile is_space_char (rev (dropWhile is_space_char s)))"

subsection \<open>Keyword extraction (lines 79 to 84)\<close>

definition stopWords :: "utf16 list" where
  "stopWords = map str
   [''i'', ''me'', ''my'', ''myself'', ''we'', ''our'', ''ours'', ''ourselves'', ''you'',
    ''your'', ''yours'', ''yourself'', ''yourselves'', ''he'', ''him'', ''his'',
    ''himself'', ''she'', ''her'', ''hers'', ''herself'', ''it'', ''its'', ''itself'',
    ''they'', ''them'', ''their'', ''theirs'', ''themselves'', ''what'', ''which'',
    ''who'', ''whom'', ''this'', ''that'', ''these'', ''those'', ''am'', ''is'', ''are'',
    ''was'', ''were'', ''be'', ''been'', ''being'', ''have'', ''has'', ''had'',
    ''having'', ''do'', ''does'', ''did'', ''doing'', ''a'', ''an'', ''the'', ''and'',
    ''but'', ''if'', ''or'', ''because'', ''as'', ''until'', ''while'', ''of'', ''at'',
    ''by'', ''for'', ''with'', ''about'', ''against'', ''between'', ''into'', ''through'',
    ''during'', ''before'', ''after'', ''above'', ''below'', ''to'', ''from'', ''up'',
    ''down'', ''in'', ''out'', ''on'', ''off'', ''over'', ''under'', ''again'',
    ''further'', ''then'', ''once'', ''here'', ''there'', ''when'', ''where'', ''why'',
    ''how'', ''all'', ''any'', ''both'', ''each'', ''few'', ''more'', ''most'', ''other'',
    ''some'', ''such'', ''no'', ''nor'', ''not'', ''only'', ''own'', ''same'', ''so'',
    ''than'', ''too'', ''very'', ''s'', ''t'', ''can'', ''will'', ''just'', ''don'',
    ''should'', ''now'']"

text \<open>\<^verbatim>\<open>stopWords.has(word)\<close>\<close>

definition is_stop_word :: "utf16 \<Rightarrow> bool" where
  "is_stop_word w = (w \<in> set stopWords)"

text \<open>
  The matches of \<^verbatim>\<open>/\b(\w+)\b/g\<close>, left to right: at a word character the greedy
  \<^verbatim>\<open>\w+\<close> takes the whole run, which ends at a word boundary, and the search goes on
  behind it; any other character is skipped.
\<close>

function word_runs :: "utf16 \<Rightarrow> utf16 list" where
  "word_runs [] = []"
| "word_runs (c # cs) =
     (if is_word_char c
      then (c # takeWhile is_word_char cs) # word_runs (dropWhile is_word_char cs)
      else word_runs cs)"
  by pat_completeness auto
termination
  by (relation "measure length") (auto simp: le_imp_less_Suc length_dropWhile_le)

text \<open>\<^verbatim>\<open>String.prototype.match\<close> with a global pattern is \<^verbatim>\<open>null\<close> when nothing matches.\<close>

definition match_words :: "utf16 \<Rightarrow> utf16 list option" where
  "match_words s = (case word_runs s of [] \<Rightarrow> None | w # ws \<Rightarrow> Some (w # ws))"

text \<open>\<^verbatim>\<open>userText.toLowerCase().match(/\b(\w+)\b/g) || []\<close>\<close>

definition allWords :: "case_table \<Rightarrow> utf16 \<Rightarrow> utf16 list" where
  "allWords lc userText =
     (case match_words (toLowerCase lc userText) of None \<Rightarrow> [] | Some ws \<Rightarrow> ws)"

definition userKeywords :: "case_table \<Rightarrow> utf16 \<Rightarrow> utf16 list" where
  "userKeywords lc userText = filter (\<lambda>word. \<not> is_stop_word word) (allWords lc userText)"

text \<open>\<^verbatim>\<open>userKeywords.slice(0, 10)\<close>\<close>

definition limitedKeywords :: "case_table \<Rightarrow> utf16 \<Rightarrow> utf16 list" where
  "limitedKeywords lc userText = take 10 (userKeywords lc userText)"

subsection \<open>Scoring and selection (lines 103 to 126)\<close>

text \<open>
  The data of a Firestore document of the collection \<^verbatim>\<open>qna\<close>. Its field \<^verbatim>\<open>keywords\<close>
  is written \<open>doc_keywords\<close>; an array field may repeat an element.
\<close>

record docData =
  doc_keywords :: "utf16 list"
  answer :: utf16

record bestMatch =
  score :: nat
  best_answer :: utf16

definition defaultResponse :: utf16 where
  "defaultResponse = str ''I'm sorry, I don't have the answer to that. Please try asking in a different way or visit the official IST website for more information.''"

definition troubleResponse :: utf16 where
  "troubleResponse = str ''Sorry, I'm having trouble connecting to my knowledge base right now.''"

text \<open>
  The inner \<^verbatim>\<open>forEach\<close>: \<^verbatim>\<open>currentScore\<close> starts at 0 and goes up by one for each element
  of \<^verbatim>\<open>docData.keywords\<close> that \<^verbatim>\<open>limitedKeywords.includes\<close>.
\<close>

definition currentScore :: "utf16 list \<Rightarrow> docData \<Rightarrow> nat" where
  "currentScore kws d =
     foldl (\<lambda>n keyword. if keyword \<in> set kws then n + 1 else n) 0 (doc_keywords d)"

text \<open>The body of the outer \<^verbatim>\<open>forEach\<close>, on one document.\<close>

definition scoreDoc :: "utf16 list \<Rightarrow> bestMatch \<Rightarrow> docData \<Rightarrow> bestMatch" where
  "scoreDoc kws best d =
     (if currentScore kws d > score best
      then \<lparr>score = currentScore kws d, best_answer = answer d\<rparr>
      else best)"

definition initialBest :: bestMatch where
  "initialBest = \<lparr>score = 0, best_answer = defaultResponse\<rparr>"

definition findBest :: "utf16 list \<Rightarrow> docData list \<Rightarrow> bestMatch" where
  "findBest kws docs = foldl (scoreDoc kws) initialBest docs"

text \<open>The text rendered for a snapshot: the branch on \<^verbatim>\<open>querySnapshot.empty\<close>.\<close>

definition snapshotAnswer :: "utf16 list \<Rightarrow> docData list \<Rightarrow> utf16" where
  "snapshotAnswer kws docs =
     (if docs = [] then defaultResponse else best_answer (findBest kws docs))"

subsection \<open>The page: transcript, input controls, Firestore\<close>

datatype content = TextContent utf16 | InnerHTML utf16

record element =
  classList :: "utf16 list"
  body :: content
  elem_id :: utf16

record page =
  chatMessages :: "element list"
  chatInput_value :: utf16
  chatInput_disabled :: bool
  sendButton_disabled :: bool
  console :: "utf16 list"
  requests :: "utf16 list list"

text \<open>
  \<^verbatim>\<open>requests\<close> lists the keyword lists of the queries handed to the store so far. The
  outcome of a query is the store's: a failure (a throw of \<^verbatim>\<open>where\<close> or a rejected \<^verbatim>\<open>get()\<close>),
  or a snapshot of documents in the order \<^verbatim>\<open>forEach\<close> visits them.
\<close>

datatype get_result = Rejected | QuerySnapshot "docData list"

type_synonym firestore = "utf16 list \<Rightarrow> get_result"


definition messageDiv :: "utf16 \<Rightarrow> utf16 \<Rightarrow> element" where
  "messageDiv text className =
     \<lparr>classList = [str ''message'', className], body = TextContent text, elem_id = []\<rparr>"

definition addMessage :: "utf16 \<Rightarrow> utf16 \<Rightarrow> page \<Rightarrow> page" where
  "addMessage text className s = s\<lparr>chatMessages := chatMessages s @ [messageDiv text className]\<rparr>"

definition indicatorDiv :: element where
  "indicatorDiv =
     \<lparr>classList = [str ''message'', str ''bot-message'', str ''typing-indicator''],
      body = InnerHTML (str ''<span></span><span></span><span></span>''),
      elem_id = str ''typing-indicator''\<rparr>"

definition showTypingIndicator :: "page \<Rightarrow> page" where
  "showTypingIndicator s = s\<lparr>chatMessages := chatMessages s @ [indicatorDiv]\<rparr>"

text \<open>\<^verbatim>\<open>getElementById\<close> finds the first element with the id, and \<^verbatim>\<open>remove\<close> detaches it.\<close>

fun removeById :: "utf16 \<Rightarrow> element list \<Rightarrow> element list" where
  "removeById i [] = []"
| "removeById i (e # es) = (if elem_id e = i then es else e # removeById i es)"

definition hideTypingIndicator :: "page \<Rightarrow> page" where
  "hideTypingIndicator s =
     s\<lparr>chatMessages := removeById (str ''typing-indicator'') (chatMessages s)\<rparr>"

definition enableInput :: "page \<Rightarrow> page" where
  "enableInput s = s\<lparr>chatInput_disabled := False, sendButton_disabled := False\<rparr>"

text \<open>
  \<^verbatim>\<open>getBotResponse\<close>, run to completion. The first branch returns before the \<^verbatim>\<open>try\<close>; the
  other two end in the \<^verbatim>\<open>finally\<close> block.
\<close>

definition getBotResponse :: "case_table \<Rightarrow> firestore \<Rightarrow> utf16 \<Rightarrow> page \<Rightarrow> page" where
  "getBotResponse lc db userText s =
     (let kws = limitedKeywords lc userText
      in if length kws = 0
         then enableInput
                (addMessage defaultResponse (str ''bot-message'') (hideTypingIndicator s))
         else
           (let s1 = s\<lparr>requests := requests s @ [kws]\<rparr>
            in case db kws of
                 QuerySnapshot docs \<Rightarrow>
                   enableInput
                     (addMessage (snapshotAnswer kws docs) (str ''bot-message'')
                       (hideTypingIndicator s1))
               | Rejected \<Rightarrow>
                   enableInput
                     (addMessage troubleResponse (str ''bot-message'')
                       (hideTypingIndicator
                         (s1\<lparr>console := console s1 @ [str ''Error querying Firestore:'']\<rparr>)))))"

definition sendMessage :: "case_table \<Rightarrow> firestore \<Rightarrow> page \<Rightarrow> page" where
  "sendMessage lc db s =
     (let messageText = trim (chatInput_value s)
      in if messageText = [] then s
         else getBotResponse lc db messageText
                (showTypingIndicator
                  ((addMessage messageText (str ''user-message'') s)
                     \<lparr>chatInput_value := [], chatInput_disabled := True,
                      sendButton_disabled := True\<rparr>)))"

section \<open>Properties\<close>

subsection \<open>Strings and tokens\<close>

lemma str_eq_iff [simp]: "str a = str b \<longleftrightarrow> a = b"
proof -
  have "inj (of_char :: char \<Rightarrow> nat)" by (simp add: inj_def)
  then show ?thesis by (simp add: str_def inj_map_eq_map)
qed

lemma str_Nil_iff [simp]: "str a = [] \<longleftrightarrow> a = []" "[] = str a \<longleftrightarrow> a = []"
  by (auto simp: str_def)


lemma is_word_char_lower_ascii [simp]: "is_word_char (lower_ascii u) = is_word_char u"
  by (auto simp: is_word_char_def lower_ascii_def)













lemma allWords_eq: "allWords lc t = word_runs (toLowerCase lc t)"
  by (simp add: allWords_def match_words_def split: list.splits)

lemma userKeywords_eq:
  "userKeywords lc t = filter (\<lambda>w. w \<notin> set stopWords) (word_runs (toLowerCase lc t))"
  by (simp add: userKeywords_def is_stop_word_def allWords_eq)

lemmas extract_defs =
  limitedKeywords_def userKeywords_def allWords_def match_words_def toLowerCase_def
  lower_unit_def lower_ascii_def latin1_table_def is_word_char_def is_stop_word_def
  stopWords_def str_def



subsection \<open>The score of one document\<close>

lemma currentScore_filter:
  "currentScore kws d = length (filter (\<lambda>k. k \<in> set kws) (doc_keywords d))"
proof -
  have "foldl (\<lambda>n keyword. if keyword \<in> set kws then n + 1 else n) m xs
        = m + length (filter (\<lambda>k. k \<in> set kws) xs)" for m :: nat and xs
    by (induction xs arbitrary: m) auto
  then show ?thesis by (simp add: currentScore_def)
qed

lemma matching_set:
  "set (filter (\<lambda>k. k \<in> set kws) (doc_keywords d)) = set (doc_keywords d) \<inter> set kws"
  by auto

lemma card_le_currentScore: "card (set (doc_keywords d) \<inter> set kws) \<le> currentScore kws d"
proof -
  have "card (set (filter (\<lambda>k. k \<in> set kws) (doc_keywords d)))
        \<le> length (filter (\<lambda>k. k \<in> set kws) (doc_keywords d))"
    by (rule card_length)
  then show ?thesis
    by (simp only: matching_set currentScore_filter)
qed

lemma currentScore_card_iff:
  "currentScore kws d = card (set (doc_keywords d) \<inter> set kws)
   \<longleftrightarrow> distinct (filter (\<lambda>k. k \<in> set kws) (doc_keywords d))"
proof -
  let ?m = "filter (\<lambda>k. k \<in> set kws) (doc_keywords d)"
  have "(length ?m = card (set ?m)) \<longleftrightarrow> distinct ?m"
    using card_distinct [of ?m] distinct_card [of ?m] by metis
  then show ?thesis
    by (simp only: matching_set currentScore_filter)
qed

lemma currentScore_distinct:
  "distinct (doc_keywords d) \<Longrightarrow> currentScore kws d = card (set (doc_keywords d) \<inter> set kws)"
  by (simp add: currentScore_card_iff)

subsection \<open>The running best match\<close>

lemma score_scoreDoc: "score (scoreDoc kws b d) = max (score b) (currentScore kws d)"
  by (simp add: scoreDoc_def)

lemma scoreDoc_keep: "currentScore kws d \<le> score b \<Longrightarrow> scoreDoc kws b d = b"
  by (simp add: scoreDoc_def)

lemma scoreDoc_replace:
  "score b < currentScore kws d \<Longrightarrow>
   scoreDoc kws b d = \<lparr>score = currentScore kws d, best_answer = answer d\<rparr>"
  by (simp add: scoreDoc_def)

lemma foldl_scoreDoc_keep:
  "(\<forall>d \<in> set docs. currentScore kws d \<le> score b) \<Longrightarrow> foldl (scoreDoc kws) b docs = b"
  by (induction docs) (simp_all add: scoreDoc_keep)

lemma Max_insert_max:
  "finite A \<Longrightarrow> Max (insert (max a c) A) = Max (insert (a::nat) (insert c A))"
  by (cases "A = {}") (simp_all add: max.assoc)

lemma score_foldl_scoreDoc:
  "score (foldl (scoreDoc kws) b docs) = Max (insert (score b) (currentScore kws ` set docs))"
proof (induction docs arbitrary: b)
  case Nil
  show ?case by simp
next
  case (Cons d ds)
  have "score (foldl (scoreDoc kws) b (d # ds))
        = Max (insert (max (score b) (currentScore kws d)) (currentScore kws ` set ds))"
    by (simp add: Cons.IH score_scoreDoc)
  also have "\<dots> = Max (insert (score b) (insert (currentScore kws d) (currentScore kws ` set ds)))"
    by (rule Max_insert_max) simp
  finally show ?case by simp
qed

lemma foldl_scoreDoc_cases:
  "foldl (scoreDoc kws) b docs = b \<or>
   (\<exists>d \<in> set docs.
      foldl (scoreDoc kws) b docs = \<lparr>score = currentScore kws d, best_answer = answer d\<rparr>)"
proof (induction docs arbitrary: b)
  case Nil
  show ?case by simp
next
  case (Cons d ds)
  show ?case
  proof (cases "score b < currentScore kws d")
    case True
    with Cons.IH [of "scoreDoc kws b d"] show ?thesis
      by (auto simp: scoreDoc_replace)
  next
    case False
    then have "scoreDoc kws b d = b" by (simp add: scoreDoc_keep)
    with Cons.IH [of b] show ?thesis by auto
  qed
qed

lemma foldl_scoreDoc_first:
  assumes pre: "\<forall>p \<in> set pre. currentScore kws p < currentScore kws d"
    and b: "score b < currentScore kws d"
    and post: "\<forall>q \<in> set post. currentScore kws q \<le> currentScore kws d"
  shows "foldl (scoreDoc kws) b (pre @ d # post) =
         \<lparr>score = currentScore kws d, best_answer = answer d\<rparr>"
proof -
  let ?b' = "foldl (scoreDoc kws) b pre"
  have "score ?b' < currentScore kws d"
    using pre b by (simp add: score_foldl_scoreDoc)
  then have "scoreDoc kws ?b' d = \<lparr>score = currentScore kws d, best_answer = answer d\<rparr>"
    by (rule scoreDoc_replace)
  moreover have "foldl (scoreDoc kws) \<lparr>score = currentScore kws d, best_answer = answer d\<rparr> post
                 = \<lparr>score = currentScore kws d, best_answer = answer d\<rparr>"
    using post by (intro foldl_scoreDoc_keep) simp
  ultimately show ?thesis by simp
qed

lemma findBest_initial_iff:
  "findBest kws docs = initialBest \<longleftrightarrow> (\<forall>d \<in> set docs. currentScore kws d = 0)"
proof
  assume "findBest kws docs = initialBest"
  then have "score (findBest kws docs) = 0" by (simp add: initialBest_def)
  then have "Max (insert 0 (currentScore kws ` set docs)) = 0"
    by (simp add: findBest_def score_foldl_scoreDoc initialBest_def)
  then have "\<forall>n \<in> insert 0 (currentScore kws ` set docs). n \<le> 0"
    by (metis Max_ge finite.insertI finite_imageI finite_set)
  then show "\<forall>d \<in> set docs. currentScore kws d = 0" by auto
next
  assume "\<forall>d \<in> set docs. currentScore kws d = 0"
  then show "findBest kws docs = initialBest"
    unfolding findBest_def by (intro foldl_scoreDoc_keep) simp
qed

lemma snapshotAnswer_findBest: "snapshotAnswer kws docs = best_answer (findBest kws docs)"
  by (simp add: snapshotAnswer_def findBest_def initialBest_def)

lemma snapshotAnswer_positive:
  assumes "\<exists>d \<in> set docs. 0 < currentScore kws d"
  shows "\<exists>d \<in> set docs. snapshotAnswer kws docs = answer d
           \<and> currentScore kws d = Max (currentScore kws ` set docs)"
proof -
  from assms have ne: "findBest kws docs \<noteq> initialBest"
    by (auto simp: findBest_initial_iff)
  from assms have nonempty: "currentScore kws ` set docs \<noteq> {}" by auto
  from ne foldl_scoreDoc_cases [of kws initialBest docs]
  obtain d where d: "d \<in> set docs"
    and eq: "findBest kws docs = \<lparr>score = currentScore kws d, best_answer = answer d\<rparr>"
    by (auto simp: findBest_def)
  have "score (findBest kws docs) = Max (insert 0 (currentScore kws ` set docs))"
    by (simp add: findBest_def score_foldl_scoreDoc initialBest_def)
  also have "\<dots> = Max (currentScore kws ` set docs)"
    using nonempty by simp
  finally have "currentScore kws d = Max (currentScore kws ` set docs)"
    by (simp add: eq)
  with d eq show ?thesis
    by (auto simp: snapshotAnswer_findBest)
qed

subsection \<open>The page\<close>

lemma removeById_absent: "\<forall>e \<in> set es. elem_id e \<noteq> i \<Longrightarrow> removeById i es = es"
  by (induction es) simp_all

lemma removeById_append_absent:
  "\<forall>e \<in> set es. elem_id e \<noteq> i \<Longrightarrow> removeById i (es @ fs) = es @ removeById i fs"
  by (induction es) simp_all

lemma removeById_count:
  "length (filter (\<lambda>e. elem_id e = i) (removeById i es))
   = length (filter (\<lambda>e. elem_id e = i) es) - 1"
  by (induction es) simp_all

lemma removeById_twice:
  assumes "length (filter (\<lambda>e. elem_id e = i) es) \<le> 1"
  shows "removeById i (removeById i es) = removeById i es"
proof -
  from assms have "length (filter (\<lambda>e. elem_id e = i) (removeById i es)) = 0"
    by (simp add: removeById_count)
  then have "\<forall>e \<in> set (removeById i es). elem_id e \<noteq> i"
    by (simp add: filter_empty_conv)
  then show ?thesis by (rule removeById_absent)
qed

lemma chatMessages_getBotResponse:
  "chatMessages (getBotResponse lc db t s) =
     removeById (str ''typing-indicator'') (chatMessages s) @
     [messageDiv
        (if limitedKeywords lc t = [] then defaultResponse
         else case db (limitedKeywords lc t) of
                Rejected \<Rightarrow> troubleResponse
              | QuerySnapshot docs \<Rightarrow> snapshotAnswer (limitedKeywords lc t) docs)
        (str ''bot-message'')]"
  by (simp add: getBotResponse_def Let_def enableInput_def addMessage_def
      hideTypingIndicator_def split: get_result.splits)



lemma sendMessage_no_indicator:
  assumes "\<forall>e \<in> set (chatMessages s). elem_id e \<noteq> str ''typing-indicator''"
  shows "\<forall>e \<in> set (chatMessages (sendMessage lc db s)). elem_id e \<noteq> str ''typing-indicator''"
proof (cases "trim (chatInput_value s) = []")
  case True
  with assms show ?thesis by (simp add: sendMessage_def)
next
  case False
  let ?u = "messageDiv (trim (chatInput_value s)) (str ''user-message'')"
  have "\<forall>e \<in> set (chatMessages s @ [?u]). elem_id e \<noteq> str ''typing-indicator''"
    using assms by (simp add: messageDiv_def)
  then have "removeById (str ''typing-indicator'') ((chatMessages s @ [?u]) @ [indicatorDiv])
             = (chatMessages s @ [?u]) @ removeById (str ''typing-indicator'') [indicatorDiv]"
    by (rule removeById_append_absent)
  then have "removeById (str ''typing-indicator'') (chatMessages s @ [?u, indicatorDiv])
             = chatMessages s @ [?u]"
    by (simp add: indicatorDiv_def)
  with False assms show ?thesis
    by (simp add: sendMessage_def Let_def chatMessages_getBotResponse showTypingIndicator_def
        addMessage_def messageDiv_def)
qed

section \<open>The claims\<close>

subsection \<open>Scoring\<close>

text \<open>
  C10: the score is one count per element of the document's keyword list that the query
  includes, so a repeated matching keyword of the document counts each time it occurs
  (\<^verbatim>\<open>["a","a"]\<close> against the query \<^verbatim>\<open>["a"]\<close> scores 2 where the intersection has one
  element). The score is at least the size of the intersection, it is that size when the
  document's list has no duplicates, and in general exactly when no matching keyword is
  repeated.
\<close>

theorem score_counts_occurrences:
  "currentScore kws d = length (filter (\<lambda>k. k \<in> set kws) (doc_keywords d))
   \<and> currentScore kws (d\<lparr>doc_keywords := doc_keywords d @ [k]\<rparr>)
       = currentScore kws d + (if k \<in> set kws then 1 else 0)
   \<and> (distinct (doc_keywords d) \<longrightarrow>
        currentScore kws d = card (set (doc_keywords d) \<inter> set kws))
   \<and> card (set (doc_keywords d) \<inter> set kws) \<le> currentScore kws d
   \<and> (currentScore kws d = card (set (doc_keywords d) \<inter> set kws)
        \<longleftrightarrow> distinct (filter (\<lambda>k. k \<in> set kws) (doc_keywords d)))
   \<and> currentScore [str ''a''] \<lparr>doc_keywords = [str ''a'', str ''a''], answer = ans\<rparr> = 2
   \<and> card (set (doc_keywords \<lparr>doc_keywords = [str ''a'', str ''a''], answer = ans\<rparr>) \<inter> set [str ''a'']) = 1"
proof (intro conjI)
  show "currentScore kws d = length (filter (\<lambda>k. k \<in> set kws) (doc_keywords d))"
    by (rule currentScore_filter)
  show "currentScore kws (d\<lparr>doc_keywords := doc_keywords d @ [k]\<rparr>)
        = currentScore kws d + (if k \<in> set kws then 1 else 0)"
    by (simp add: currentScore_filter)
  show "distinct (doc_keywords d) \<longrightarrow>
        currentScore kws d = card (set (doc_keywords d) \<inter> set kws)"
    by (simp add: currentScore_distinct)
  show "card (set (doc_keywords d) \<inter> set kws) \<le> currentScore kws d"
    by (rule card_le_currentScore)
  show "currentScore kws d = card (set (doc_keywords d) \<inter> set kws)
        \<longleftrightarrow> distinct (filter (\<lambda>k. k \<in> set kws) (doc_keywords d))"
    by (rule currentScore_card_iff)
  show "currentScore [str ''a''] \<lparr>doc_keywords = [str ''a'', str ''a''], answer = ans\<rparr> = 2"
    by (simp add: currentScore_def)
  show "card (set (doc_keywords \<lparr>doc_keywords = [str ''a'', str ''a''], answer = ans\<rparr>) \<inter> set [str ''a'']) = 1"
    by simp
qed

theorem score_counts_occurrences_witness:
  "distinct (doc_keywords \<lparr>doc_keywords = [str ''fee'', str ''hostel'', str ''time''], answer = str ''A''\<rparr>)
   \<and> currentScore [str ''hostel'', str ''fee'', str ''hostel'']
        \<lparr>doc_keywords = [str ''fee'', str ''hostel'', str ''time''], answer = str ''A''\<rparr> = 2
   \<and> card (set (doc_keywords \<lparr>doc_keywords = [str ''fee'', str ''hostel'', str ''time''], answer = str ''A''\<rparr>)
            \<inter> set [str ''hostel'', str ''fee'', str ''hostel'']) = 2"
proof -
  let ?d = "\<lparr>doc_keywords = [str ''fee'', str ''hostel'', str ''time''], answer = str ''A''\<rparr>"
  let ?kws = "[str ''hostel'', str ''fee'', str ''hostel'']"
  have h: "distinct (doc_keywords ?d)" by simp
  have v: "currentScore ?kws ?d = 2" by (simp add: currentScore_def)
  from score_counts_occurrences [of ?kws ?d] h
  have "currentScore ?kws ?d = card (set (doc_keywords ?d) \<inter> set ?kws)" by blast
  with h v show ?thesis by simp
qed

text \<open>
  C4: duplicates in the query do not inflate the score. A record whose keywords are the set
  \<^verbatim>\<open>{"a","b"}\<close> scores 2, not 3, on the query \<^verbatim>\<open>["a","a","b"]\<close>; the score depends on the
  query only through the set of its elements.
\<close>

theorem duplicate_query_keywords:
  "currentScore [str ''a'', str ''a'', str ''b''] \<lparr>doc_keywords = [str ''a'', str ''b''], answer = ans\<rparr> = 2
   \<and> (distinct (doc_keywords d) \<and> set (doc_keywords d) = {str ''a'', str ''b''} \<longrightarrow>
        currentScore [str ''a'', str ''a'', str ''b''] d = 2)
   \<and> (set kws = set kws' \<longrightarrow> currentScore kws d = currentScore kws' d)
   \<and> currentScore kws d = currentScore (remdups kws) d"
proof (intro conjI impI)
  show "currentScore [str ''a'', str ''a'', str ''b''] \<lparr>doc_keywords = [str ''a'', str ''b''], answer = ans\<rparr> = 2"
    by (simp add: currentScore_def)
  show "currentScore [str ''a'', str ''a'', str ''b''] d = 2"
    if "distinct (doc_keywords d) \<and> set (doc_keywords d) = {str ''a'', str ''b''}"
  proof -
    from that have "currentScore [str ''a'', str ''a'', str ''b''] d
                    = card (set (doc_keywords d) \<inter> set [str ''a'', str ''a'', str ''b''])"
      by (simp add: currentScore_distinct)
    also from that have "set (doc_keywords d) \<inter> set [str ''a'', str ''a'', str ''b''] = {str ''a'', str ''b''}"
      by auto
    also have "card {str ''a'', str ''b''} = 2" by simp
    finally show ?thesis .
  qed
  show "currentScore kws d = currentScore kws' d" if "set kws = set kws'"
    using that by (simp add: currentScore_filter)
  show "currentScore kws d = currentScore (remdups kws) d"
    by (simp add: currentScore_filter)
qed

theorem duplicate_query_keywords_witness:
  "distinct (doc_keywords \<lparr>doc_keywords = [str ''b'', str ''a''], answer = str ''X''\<rparr>)
   \<and> set (doc_keywords \<lparr>doc_keywords = [str ''b'', str ''a''], answer = str ''X''\<rparr>) = {str ''a'', str ''b''}
   \<and> currentScore [str ''a'', str ''a'', str ''b''] \<lparr>doc_keywords = [str ''b'', str ''a''], answer = str ''X''\<rparr> = 2
   \<and> set [str ''a'', str ''a'', str ''b''] = set [str ''b'', str ''a'']
   \<and> currentScore [str ''a'', str ''a'', str ''b''] \<lparr>doc_keywords = [str ''b'', str ''a''], answer = str ''X''\<rparr>
       = currentScore [str ''b'', str ''a''] \<lparr>doc_keywords = [str ''b'', str ''a''], answer = str ''X''\<rparr>"
proof -
  let ?d = "\<lparr>doc_keywords = [str ''b'', str ''a''], answer = str ''X''\<rparr>"
  have h1: "distinct (doc_keywords ?d) \<and> set (doc_keywords ?d) = {str ''a'', str ''b''}" by auto
  have h2: "set [str ''a'', str ''a'', str ''b''] = set [str ''b'', str ''a'']" by auto
  from duplicate_query_keywords [of "str ''X''" ?d "[str ''a'', str ''a'', str ''b'']" "[str ''b'', str ''a'']"] h1 h2
  have "currentScore [str ''a'', str ''a'', str ''b''] ?d = 2
        \<and> currentScore [str ''a'', str ''a'', str ''b''] ?d = currentScore [str ''b'', str ''a''] ?d"
    by blast
  with h1 h2 show ?thesis by blast
qed

text \<open>
  C8: the running best starts as score 0 with the default answer, a document that scores 0
  never replaces the running best, and when every document scores 0 the default message is
  the answer.
\<close>

theorem zero_score_keeps_default:
  "initialBest = \<lparr>score = 0, best_answer = defaultResponse\<rparr>
   \<and> (currentScore kws d = 0 \<longrightarrow> scoreDoc kws best d = best)
   \<and> ((\<forall>c \<in> set docs. currentScore kws c = 0) \<longrightarrow>
        findBest kws docs = initialBest \<and> snapshotAnswer kws docs = defaultResponse)"
proof (intro conjI impI)
  show "initialBest = \<lparr>score = 0, best_answer = defaultResponse\<rparr>"
    by (simp add: initialBest_def)
  show "scoreDoc kws best d = best" if "currentScore kws d = 0"
    using that by (simp add: scoreDoc_keep)
  assume z: "\<forall>c \<in> set docs. currentScore kws c = 0"
  then show b: "findBest kws docs = initialBest"
    by (simp add: findBest_initial_iff)
  then show "snapshotAnswer kws docs = defaultResponse"
    by (simp add: snapshotAnswer_findBest initialBest_def)
qed

theorem zero_score_keeps_default_witness:
  "currentScore [str ''library''] \<lparr>doc_keywords = [str ''fee''], answer = str ''Z''\<rparr> = 0
   \<and> currentScore [str ''library''] \<lparr>doc_keywords = [str ''hostel'', str ''fee''], answer = str ''W''\<rparr> = 0
   \<and> scoreDoc [str ''library''] initialBest \<lparr>doc_keywords = [str ''fee''], answer = str ''Z''\<rparr> = initialBest
   \<and> snapshotAnswer [str ''library'']
        [\<lparr>doc_keywords = [str ''fee''], answer = str ''Z''\<rparr>,
         \<lparr>doc_keywords = [str ''hostel'', str ''fee''], answer = str ''W''\<rparr>] = defaultResponse"
proof -
  let ?z = "\<lparr>doc_keywords = [str ''fee''], answer = str ''Z''\<rparr>"
  let ?w = "\<lparr>doc_keywords = [str ''hostel'', str ''fee''], answer = str ''W''\<rparr>"
  have z: "currentScore [str ''library''] ?z = 0" by (simp add: currentScore_def)
  have w: "currentScore [str ''library''] ?w = 0" by (simp add: currentScore_def)
  from z w have all: "\<forall>c \<in> set [?z, ?w]. currentScore [str ''library''] c = 0" by simp
  from zero_score_keeps_default [of "[str ''library'']" ?z initialBest "[?z, ?w]"] z all
  have "scoreDoc [str ''library''] initialBest ?z = initialBest
        \<and> snapshotAnswer [str ''library''] [?z, ?w] = defaultResponse"
    by blast
  with z w show ?thesis by blast
qed

subsection \<open>Selection\<close>

text \<open>
  C3: ties are broken by the strictly-greater comparison alone. A document whose score is
  not above the running best leaves it unchanged; hence the first document that attains
  the highest score is the one whose answer is returned, whatever follows it with an equal
  score. In particular, of two documents that each score 1 on the query \<^verbatim>\<open>["a"]\<close> the
  first one's answer is returned.
\<close>

theorem first_wins_ties:
  "(currentScore kws d \<le> score best \<longrightarrow> scoreDoc kws best d = best)
   \<and> ((\<forall>p \<in> set pre. currentScore kws p < currentScore kws d)
        \<and> 0 < currentScore kws d
        \<and> (\<forall>q \<in> set post. currentScore kws q \<le> currentScore kws d) \<longrightarrow>
        findBest kws (pre @ d # post) = \<lparr>score = currentScore kws d, best_answer = answer d\<rparr>
        \<and> snapshotAnswer kws (pre @ d # post) = answer d)
   \<and> (currentScore [str ''a''] d1 = 1 \<and> currentScore [str ''a''] d2 = 1 \<longrightarrow>
        snapshotAnswer [str ''a''] [d1, d2] = answer d1)
   \<and> snapshotAnswer [str ''a'']
        [\<lparr>doc_keywords = [str ''a''], answer = str ''X''\<rparr>, \<lparr>doc_keywords = [str ''a''], answer = str ''Y''\<rparr>]
       = str ''X''"
proof (intro conjI impI)
  show "scoreDoc kws best d = best" if "currentScore kws d \<le> score best"
    using that by (rule scoreDoc_keep)
next
  assume h: "(\<forall>p \<in> set pre. currentScore kws p < currentScore kws d)
        \<and> 0 < currentScore kws d
        \<and> (\<forall>q \<in> set post. currentScore kws q \<le> currentScore kws d)"
  then have "score initialBest < currentScore kws d" by (simp add: initialBest_def)
  with h show f: "findBest kws (pre @ d # post)
                  = \<lparr>score = currentScore kws d, best_answer = answer d\<rparr>"
    unfolding findBest_def by (intro foldl_scoreDoc_first) simp_all
  show "snapshotAnswer kws (pre @ d # post) = answer d"
    by (simp add: snapshotAnswer_findBest f)
next
  assume "currentScore [str ''a''] d1 = 1 \<and> currentScore [str ''a''] d2 = 1"
  then show "snapshotAnswer [str ''a''] [d1, d2] = answer d1"
    by (simp add: snapshotAnswer_def findBest_def scoreDoc_def initialBest_def)
next
  show "snapshotAnswer [str ''a'']
        [\<lparr>doc_keywords = [str ''a''], answer = str ''X''\<rparr>, \<lparr>doc_keywords = [str ''a''], answer = str ''Y''\<rparr>]
       = str ''X''"
    by (simp add: snapshotAnswer_def findBest_def scoreDoc_def initialBest_def currentScore_def)
qed

theorem first_wins_ties_witness:
  "currentScore [str ''fee'', str ''hostel''] \<lparr>doc_keywords = [str ''fee''], answer = str ''P''\<rparr> = 1
   \<and> currentScore [str ''fee'', str ''hostel''] \<lparr>doc_keywords = [str ''hostel'', str ''fee''], answer = str ''D''\<rparr> = 2
   \<and> currentScore [str ''fee'', str ''hostel''] \<lparr>doc_keywords = [str ''fee'', str ''hostel'', str ''bus''], answer = str ''Q''\<rparr> = 2
   \<and> scoreDoc [str ''fee'', str ''hostel''] \<lparr>score = 2, best_answer = str ''D''\<rparr>
        \<lparr>doc_keywords = [str ''fee'', str ''hostel'', str ''bus''], answer = str ''Q''\<rparr>
       = \<lparr>score = 2, best_answer = str ''D''\<rparr>
   \<and> snapshotAnswer [str ''fee'', str ''hostel'']
        [\<lparr>doc_keywords = [str ''fee''], answer = str ''P''\<rparr>,
         \<lparr>doc_keywords = [str ''hostel'', str ''fee''], answer = str ''D''\<rparr>,
         \<lparr>doc_keywords = [str ''fee'', str ''hostel'', str ''bus''], answer = str ''Q''\<rparr>] = str ''D''
   \<and> currentScore [str ''a''] \<lparr>doc_keywords = [str ''a'', str ''z''], answer = str ''X''\<rparr> = 1
   \<and> currentScore [str ''a''] \<lparr>doc_keywords = [str ''y'', str ''a''], answer = str ''Y''\<rparr> = 1
   \<and> snapshotAnswer [str ''a'']
        [\<lparr>doc_keywords = [str ''a'', str ''z''], answer = str ''X''\<rparr>,
         \<lparr>doc_keywords = [str ''y'', str ''a''], answer = str ''Y''\<rparr>] = str ''X''"
proof -
  let ?k = "[str ''fee'', str ''hostel'']"
  let ?p = "\<lparr>doc_keywords = [str ''fee''], answer = str ''P''\<rparr>"
  let ?d = "\<lparr>doc_keywords = [str ''hostel'', str ''fee''], answer = str ''D''\<rparr>"
  let ?q = "\<lparr>doc_keywords = [str ''fee'', str ''hostel'', str ''bus''], answer = str ''Q''\<rparr>"
  let ?b = "\<lparr>score = 2, best_answer = str ''D''\<rparr>"
  let ?x = "\<lparr>doc_keywords = [str ''a'', str ''z''], answer = str ''X''\<rparr>"
  let ?y = "\<lparr>doc_keywords = [str ''y'', str ''a''], answer = str ''Y''\<rparr>"
  have p: "currentScore ?k ?p = 1" by (simp add: currentScore_def)
  have d: "currentScore ?k ?d = 2" by (simp add: currentScore_def)
  have q: "currentScore ?k ?q = 2" by (simp add: currentScore_def)
  have x: "currentScore [str ''a''] ?x = 1" by (simp add: currentScore_def)
  have y: "currentScore [str ''a''] ?y = 1" by (simp add: currentScore_def)
  have h1: "currentScore ?k ?q \<le> score ?b" by (simp add: q)
  have h2: "(\<forall>p \<in> set [?p]. currentScore ?k p < currentScore ?k ?d)
            \<and> 0 < currentScore ?k ?d
            \<and> (\<forall>q \<in> set [?q]. currentScore ?k q \<le> currentScore ?k ?d)"
    by (simp add: p d q)
  have c1: "scoreDoc ?k ?b ?q = ?b"
    using first_wins_ties [of ?k ?q ?b "[]" "[]" ?x ?y] h1 by blast
  have "snapshotAnswer ?k ([?p] @ ?d # [?q]) = answer ?d"
    using first_wins_ties [of ?k ?d ?b "[?p]" "[?q]" ?x ?y] h2 by blast
  then have c2: "snapshotAnswer ?k [?p, ?d, ?q] = str ''D''" by simp
  have "snapshotAnswer [str ''a''] [?x, ?y] = answer ?x"
    using first_wins_ties [of ?k ?d ?b "[?p]" "[?q]" ?x ?y] x y by blast
  then have c3: "snapshotAnswer [str ''a''] [?x, ?y] = str ''X''" by simp
  from p d q c1 c2 x y c3 show ?thesis by blast
qed

text \<open>
  C1, as stated, fails in the direction from the returned text to the scores: a document
  with positive overlap whose stored answer is the text of the default message makes the
  selection return that text although a candidate was retrieved and matched.
\<close>

theorem default_text_counterexample:
  "snapshotAnswer [str ''a''] [\<lparr>doc_keywords = [str ''a''], answer = defaultResponse\<rparr>] = defaultResponse
   \<and> [\<lparr>doc_keywords = [str ''a''], answer = defaultResponse\<rparr>] \<noteq> []
   \<and> currentScore [str ''a''] \<lparr>doc_keywords = [str ''a''], answer = defaultResponse\<rparr> = 1"
  by (simp add: snapshotAnswer_def findBest_def scoreDoc_def initialBest_def currentScore_def)

text \<open>
  C1 (amended): whenever no candidate was retrieved or no candidate has positive overlap,
  the selection returns the default message; whenever some candidate has positive overlap,
  it returns the answer of a candidate whose score equals the maximum score across all
  retrieved candidates. Hence, provided no retrieved candidate stores the default text as
  its answer, the default message is returned exactly when no candidate was retrieved or
  none has positive overlap; and in every case the running best is still the initial one,
  score 0 with the default answer, exactly then.
\<close>

theorem selection_max_or_default:
  "(docs = [] \<or> (\<forall>d \<in> set docs. currentScore kws d = 0) \<longrightarrow>
      snapshotAnswer kws docs = defaultResponse)
   \<and> ((\<exists>d \<in> set docs. 0 < currentScore kws d) \<longrightarrow>
        (\<exists>d \<in> set docs. snapshotAnswer kws docs = answer d
           \<and> currentScore kws d = Max (currentScore kws ` set docs)))
   \<and> ((\<forall>d \<in> set docs. answer d \<noteq> defaultResponse) \<longrightarrow>
        (snapshotAnswer kws docs = defaultResponse
         \<longleftrightarrow> docs = [] \<or> (\<forall>d \<in> set docs. currentScore kws d = 0)))
   \<and> (findBest kws docs = initialBest
        \<longleftrightarrow> docs = [] \<or> (\<forall>d \<in> set docs. currentScore kws d = 0))"
proof -
  have sentinel: "findBest kws docs = initialBest
        \<longleftrightarrow> docs = [] \<or> (\<forall>d \<in> set docs. currentScore kws d = 0)"
    by (auto simp: findBest_initial_iff)
  have zero: "snapshotAnswer kws docs = defaultResponse"
    if "docs = [] \<or> (\<forall>d \<in> set docs. currentScore kws d = 0)"
  proof -
    from that have "\<forall>d \<in> set docs. currentScore kws d = 0" by auto
    then have "findBest kws docs = initialBest" by (simp add: findBest_initial_iff)
    then show ?thesis by (simp add: snapshotAnswer_findBest initialBest_def)
  qed
  have pos: "\<exists>d \<in> set docs. snapshotAnswer kws docs = answer d
               \<and> currentScore kws d = Max (currentScore kws ` set docs)"
    if "\<exists>d \<in> set docs. 0 < currentScore kws d"
    using that by (rule snapshotAnswer_positive)
  have iff: "snapshotAnswer kws docs = defaultResponse
             \<longleftrightarrow> docs = [] \<or> (\<forall>d \<in> set docs. currentScore kws d = 0)"
    if other: "\<forall>d \<in> set docs. answer d \<noteq> defaultResponse"
  proof
    assume eq: "snapshotAnswer kws docs = defaultResponse"
    show "docs = [] \<or> (\<forall>d \<in> set docs. currentScore kws d = 0)"
    proof (rule ccontr)
      assume "\<not> (docs = [] \<or> (\<forall>d \<in> set docs. currentScore kws d = 0))"
      then have "\<exists>d \<in> set docs. 0 < currentScore kws d" by auto
      from pos [OF this] obtain d where "d \<in> set docs" "snapshotAnswer kws docs = answer d"
        by blast
      with other eq show False by auto
    qed
  next
    assume "docs = [] \<or> (\<forall>d \<in> set docs. currentScore kws d = 0)"
    then show "snapshotAnswer kws docs = defaultResponse" by (rule zero)
  qed
  from zero pos iff sentinel show ?thesis by blast
qed

theorem selection_max_or_default_witness:
  "snapshotAnswer [str ''a'', str ''b''] [] = defaultResponse
   \<and> currentScore [str ''a'', str ''b''] \<lparr>doc_keywords = [str ''c''], answer = str ''Z''\<rparr> = 0
   \<and> snapshotAnswer [str ''a'', str ''b''] [\<lparr>doc_keywords = [str ''c''], answer = str ''Z''\<rparr>] = defaultResponse
   \<and> 0 < currentScore [str ''a'', str ''b''] \<lparr>doc_keywords = [str ''a'', str ''b''], answer = str ''X''\<rparr>
   \<and> (\<exists>d \<in> set [\<lparr>doc_keywords = [str ''a''], answer = str ''Y''\<rparr>,
                   \<lparr>doc_keywords = [str ''a'', str ''b''], answer = str ''X''\<rparr>].
         snapshotAnswer [str ''a'', str ''b'']
           [\<lparr>doc_keywords = [str ''a''], answer = str ''Y''\<rparr>,
            \<lparr>doc_keywords = [str ''a'', str ''b''], answer = str ''X''\<rparr>] = answer d
         \<and> currentScore [str ''a'', str ''b''] d
             = Max (currentScore [str ''a'', str ''b'']
                     ` set [\<lparr>doc_keywords = [str ''a''], answer = str ''Y''\<rparr>,
                            \<lparr>doc_keywords = [str ''a'', str ''b''], answer = str ''X''\<rparr>]))
   \<and> str ''X'' \<noteq> defaultResponse \<and> str ''Y'' \<noteq> defaultResponse
   \<and> snapshotAnswer [str ''a'', str ''b'']
        [\<lparr>doc_keywords = [str ''a''], answer = str ''Y''\<rparr>,
         \<lparr>doc_keywords = [str ''a'', str ''b''], answer = str ''X''\<rparr>] \<noteq> defaultResponse"
proof -
  let ?k = "[str ''a'', str ''b'']"
  let ?x = "\<lparr>doc_keywords = [str ''a'', str ''b''], answer = str ''X''\<rparr>"
  let ?y = "\<lparr>doc_keywords = [str ''a''], answer = str ''Y''\<rparr>"
  let ?z = "\<lparr>doc_keywords = [str ''c''], answer = str ''Z''\<rparr>"
  have z: "currentScore ?k ?z = 0" by (simp add: currentScore_def)
  have x: "0 < currentScore ?k ?x" by (simp add: currentScore_def)
  have tx: "str ''X'' \<noteq> defaultResponse" by (simp add: defaultResponse_def)
  have ty: "str ''Y'' \<noteq> defaultResponse" by (simp add: defaultResponse_def)
  have c0: "snapshotAnswer ?k [] = defaultResponse"
    using selection_max_or_default [of "[]" ?k] by blast
  have "\<forall>d \<in> set [?z]. currentScore ?k d = 0" by (simp add: z)
  then have c1: "snapshotAnswer ?k [?z] = defaultResponse"
    using selection_max_or_default [of "[?z]" ?k] by blast
  have ex: "\<exists>d \<in> set [?y, ?x]. 0 < currentScore ?k d" using x by simp
  then have c2: "\<exists>d \<in> set [?y, ?x]. snapshotAnswer ?k [?y, ?x] = answer d
                   \<and> currentScore ?k d = Max (currentScore ?k ` set [?y, ?x])"
    using selection_max_or_default [of "[?y, ?x]" ?k] by blast
  have other: "\<forall>d \<in> set [?y, ?x]. answer d \<noteq> defaultResponse" using tx ty by simp
  have "\<not> ([?y, ?x] = [] \<or> (\<forall>d \<in> set [?y, ?x]. currentScore ?k d = 0))"
    using x by simp
  with other have c3: "snapshotAnswer ?k [?y, ?x] \<noteq> defaultResponse"
    using selection_max_or_default [of "[?y, ?x]" ?k] by blast
  from c0 z c1 x c2 tx ty c3 show ?thesis by blast
qed

subsection \<open>Keyword extraction\<close>

text \<open>
  C2: for every input text the extraction returns at most 10 tokens, none of which is in
  the stop-word set; the result is the first 10 tokens that survive the filter (all of them
  when fewer survive), in the order in which they occur in the text.
\<close>

theorem at_most_ten_keywords:
  "length (limitedKeywords lc t) \<le> 10
   \<and> (\<forall>w \<in> set (limitedKeywords lc t). w \<notin> set stopWords)
   \<and> limitedKeywords lc t
       = take 10 (filter (\<lambda>w. w \<notin> set stopWords) (word_runs (toLowerCase lc t)))
   \<and> prefix (limitedKeywords lc t) (userKeywords lc t)
   \<and> subseq (userKeywords lc t) (allWords lc t)
   \<and> length (limitedKeywords lc t) = min 10 (length (userKeywords lc t))"
proof (intro conjI)
  show "length (limitedKeywords lc t) \<le> 10"
    by (simp add: limitedKeywords_def)
  show "\<forall>w \<in> set (limitedKeywords lc t). w \<notin> set stopWords"
  proof
    fix w assume "w \<in> set (limitedKeywords lc t)"
    then have "w \<in> set (userKeywords lc t)"
      unfolding limitedKeywords_def by (rule in_set_takeD)
    then show "w \<notin> set stopWords" by (simp add: userKeywords_eq)
  qed
  show "limitedKeywords lc t
        = take 10 (filter (\<lambda>w. w \<notin> set stopWords) (word_runs (toLowerCase lc t)))"
    by (simp add: limitedKeywords_def userKeywords_eq)
  show "prefix (limitedKeywords lc t) (userKeywords lc t)"
    by (simp add: limitedKeywords_def take_is_prefix)
  show "subseq (userKeywords lc t) (allWords lc t)"
    by (simp add: userKeywords_def)
  show "length (limitedKeywords lc t) = min 10 (length (userKeywords lc t))"
    by (simp add: limitedKeywords_def min.commute)
qed

theorem at_most_ten_keywords_witness:
  "limitedKeywords latin1_table
     (str ''What are the Fee, hostel, bus, library, lab, exam, result, admission, merit, aid and sports timings?'')
     = map str [''fee'', ''hostel'', ''bus'', ''library'', ''lab'', ''exam'', ''result'',
                ''admission'', ''merit'', ''aid'']
   \<and> userKeywords latin1_table
     (str ''What are the Fee, hostel, bus, library, lab, exam, result, admission, merit, aid and sports timings?'')
     = map str [''fee'', ''hostel'', ''bus'', ''library'', ''lab'', ''exam'', ''result'',
                ''admission'', ''merit'', ''aid'', ''sports'', ''timings'']
   \<and> str ''fee'' \<notin> set stopWords \<and> str ''aid'' \<notin> set stopWords"
proof -
  let ?t = "str ''What are the Fee, hostel, bus, library, lab, exam, result, admission, merit, aid and sports timings?''"
  have u: "userKeywords latin1_table ?t
     = map str [''fee'', ''hostel'', ''bus'', ''library'', ''lab'', ''exam'', ''result'',
                ''admission'', ''merit'', ''aid'', ''sports'', ''timings'']"
    by (simp add: extract_defs)
  have l: "limitedKeywords latin1_table ?t
     = map str [''fee'', ''hostel'', ''bus'', ''library'', ''lab'', ''exam'', ''result'',
                ''admission'', ''merit'', ''aid'']"
    unfolding limitedKeywords_def u by simp
  have "\<forall>w \<in> set (limitedKeywords latin1_table ?t). w \<notin> set stopWords"
    using at_most_ten_keywords [of latin1_table ?t] by blast
  then have "str ''fee'' \<notin> set stopWords \<and> str ''aid'' \<notin> set stopWords"
    unfolding l by simp
  with u l show ?thesis by blast
qed




subsection \<open>The conversation turn\<close>





subsection \<open>The typing indicator\<close>

text \<open>
  C9, as stated, fails for \<^verbatim>\<open>showTypingIndicator\<close>: the function appends a new element
  on each call, so two calls leave a page different from the one that a single call leaves.
  On the page with two indicators that results, \<^verbatim>\<open>hideTypingIndicator\<close> removes one per
  call and is not idempotent either.
\<close>

theorem show_twice_counterexample:
  "showTypingIndicator (showTypingIndicator
      \<lparr>chatMessages = [], chatInput_value = [], chatInput_disabled = True,
       sendButton_disabled = True, console = [], requests = []\<rparr>)
   \<noteq> showTypingIndicator
      \<lparr>chatMessages = [], chatInput_value = [], chatInput_disabled = True,
       sendButton_disabled = True, console = [], requests = []\<rparr>
   \<and> hideTypingIndicator (hideTypingIndicator
      \<lparr>chatMessages = [indicatorDiv, indicatorDiv], chatInput_value = [],
       chatInput_disabled = True, sendButton_disabled = True, console = [], requests = []\<rparr>)
   \<noteq> hideTypingIndicator
      \<lparr>chatMessages = [indicatorDiv, indicatorDiv], chatInput_value = [],
       chatInput_disabled = True, sendButton_disabled = True, console = [], requests = []\<rparr>"
  by (simp add: showTypingIndicator_def hideTypingIndicator_def indicatorDiv_def)

text \<open>
  C9 (amended): \<^verbatim>\<open>hideTypingIndicator\<close> is a no-op when no indicator is shown, undoes a
  \<^verbatim>\<open>showTypingIndicator\<close> on such a page, and is idempotent on every page that holds at most
  one indicator. \<^verbatim>\<open>showTypingIndicator\<close> is not idempotent: every call appends one more
  indicator element to the transcript.
\<close>

theorem typing_indicator_show_hide:
  "((\<forall>e \<in> set (chatMessages s). elem_id e \<noteq> str ''typing-indicator'') \<longrightarrow>
      hideTypingIndicator s = s \<and> hideTypingIndicator (showTypingIndicator s) = s)
   \<and> (length (filter (\<lambda>e. elem_id e = str ''typing-indicator'') (chatMessages s)) \<le> 1 \<longrightarrow>
        hideTypingIndicator (hideTypingIndicator s) = hideTypingIndicator s)
   \<and> chatMessages (showTypingIndicator (showTypingIndicator s))
       = chatMessages (showTypingIndicator s) @ [indicatorDiv]
   \<and> elem_id indicatorDiv = str ''typing-indicator''"
proof (intro conjI impI)
  assume a: "\<forall>e \<in> set (chatMessages s). elem_id e \<noteq> str ''typing-indicator''"
  then show "hideTypingIndicator s = s"
    by (simp add: hideTypingIndicator_def removeById_absent)
  from a have "removeById (str ''typing-indicator'') (chatMessages s @ [indicatorDiv])
               = chatMessages s @ removeById (str ''typing-indicator'') [indicatorDiv]"
    by (rule removeById_append_absent)
  then show "hideTypingIndicator (showTypingIndicator s) = s"
    by (simp add: hideTypingIndicator_def showTypingIndicator_def indicatorDiv_def)
next
  assume "length (filter (\<lambda>e. elem_id e = str ''typing-indicator'') (chatMessages s)) \<le> 1"
  then show "hideTypingIndicator (hideTypingIndicator s) = hideTypingIndicator s"
    by (simp add: hideTypingIndicator_def removeById_twice)
next
  show "chatMessages (showTypingIndicator (showTypingIndicator s))
       = chatMessages (showTypingIndicator s) @ [indicatorDiv]"
    by (simp add: showTypingIndicator_def)
  show "elem_id indicatorDiv = str ''typing-indicator''"
    by (simp add: indicatorDiv_def)
qed

theorem typing_indicator_show_hide_witness:
  "list_all (\<lambda>e. elem_id e \<noteq> str ''typing-indicator'') [messageDiv (str ''hi'') (str ''user-message'')]
   \<and> hideTypingIndicator
        \<lparr>chatMessages = [messageDiv (str ''hi'') (str ''user-message'')], chatInput_value = [],
         chatInput_disabled = True, sendButton_disabled = True, console = [], requests = []\<rparr>
       = \<lparr>chatMessages = [messageDiv (str ''hi'') (str ''user-message'')], chatInput_value = [],
          chatInput_disabled = True, sendButton_disabled = True, console = [], requests = []\<rparr>
   \<and> hideTypingIndicator (showTypingIndicator
        \<lparr>chatMessages = [messageDiv (str ''hi'') (str ''user-message'')], chatInput_value = [],
         chatInput_disabled = True, sendButton_disabled = True, console = [], requests = []\<rparr>)
       = \<lparr>chatMessages = [messageDiv (str ''hi'') (str ''user-message'')], chatInput_value = [],
          chatInput_disabled = True, sendButton_disabled = True, console = [], requests = []\<rparr>
   \<and> length (filter (\<lambda>e. elem_id e = str ''typing-indicator'')
        [messageDiv (str ''hi'') (str ''user-message''), indicatorDiv]) = 1
   \<and> hideTypingIndicator (hideTypingIndicator
        \<lparr>chatMessages = [messageDiv (str ''hi'') (str ''user-message''), indicatorDiv], chatInput_value = [],
         chatInput_disabled = True, sendButton_disabled = True, console = [], requests = []\<rparr>)
       = hideTypingIndicator
        \<lparr>chatMessages = [messageDiv (str ''hi'') (str ''user-message''), indicatorDiv], chatInput_value = [],
         chatInput_disabled = True, sendButton_disabled = True, console = [], requests = []\<rparr>"
proof -
  let ?s = "\<lparr>chatMessages = [messageDiv (str ''hi'') (str ''user-message'')], chatInput_value = [],
         chatInput_disabled = True, sendButton_disabled = True, console = [], requests = []\<rparr>"
  let ?q = "\<lparr>chatMessages = [messageDiv (str ''hi'') (str ''user-message''), indicatorDiv], chatInput_value = [],
         chatInput_disabled = True, sendButton_disabled = True, console = [], requests = []\<rparr>"
  have a: "list_all (\<lambda>e. elem_id e \<noteq> str ''typing-indicator'') [messageDiv (str ''hi'') (str ''user-message'')]"
    by (simp add: messageDiv_def)
  then have "\<forall>e \<in> set (chatMessages ?s). elem_id e \<noteq> str ''typing-indicator''" by simp
  then have c1: "hideTypingIndicator ?s = ?s \<and> hideTypingIndicator (showTypingIndicator ?s) = ?s"
    using typing_indicator_show_hide [of ?s] by blast
  have b: "length (filter (\<lambda>e. elem_id e = str ''typing-indicator'')
        [messageDiv (str ''hi'') (str ''user-message''), indicatorDiv]) = 1"
    by (simp add: messageDiv_def indicatorDiv_def)
  then have "length (filter (\<lambda>e. elem_id e = str ''typing-indicator'') (chatMessages ?q)) \<le> 1"
    by simp
  then have c2: "hideTypingIndicator (hideTypingIndicator ?q) = hideTypingIndicator ?q"
    using typing_indicator_show_hide [of ?q] by blast
  from a c1 b c2 show ?thesis by blast
qed



end
